theory Spec2Isabelle
  imports Main
begin

section \<open>Data model (token.ts, types.ts)\<close>

text \<open>
  Instants are UNIX times in milliseconds and durations are seconds; both are modelled as
  integers (JavaScript numbers that are integral and below \<open>2^53\<close> behave like them;
  \<open>NaN\<close>, infinities and fractions are outside the model). \<open>undefined\<close> is \<open>None\<close>.
\<close>

type_synonym Token = string

record TokenBundle =
  token :: Token
  expiresAt :: "int option"

text \<open>
  The user payload has the generic type \<open>U\<close> in the source. The provider tests it for
  truthiness, so its values are modelled as JSON values with JavaScript's truthiness.
\<close>

datatype jsvalue =
    JNull
  | JBool bool
  | JNum int
  | JStr string
  | JArr "jsvalue list"
  | JObj "(string \<times> jsvalue) list"

fun truthy :: "jsvalue \<Rightarrow> bool" where
  "truthy JNull = False"
| "truthy (JBool b) = b"
| "truthy (JNum n) = (n \<noteq> 0)"
| "truthy (JStr s) = (s \<noteq> [])"
| "truthy (JArr xs) = True"
| "truthy (JObj kvs) = True"

record AuthState =
  initialized :: bool
  auth :: "TokenBundle option"
  renew :: "TokenBundle option"
  user :: "jsvalue option"

text \<open>\<open>number | Date | undefined\<close>: a number is a duration in seconds, a \<open>Date\<close> an instant.\<close>

datatype expiration = Number int | Date int

text \<open>
  \<open>AuthActionResult\<close>. Its fields \<open>token\<close>, \<open>renew\<close> and \<open>user\<close> carry the prefix
  \<open>res_\<close> here, since a record's field names are global.
\<close>

record AuthActionResult =
  res_token :: Token
  tokenExpiration :: "expiration option"
  res_renew :: "Token option"
  renewExpiration :: "expiration option"
  res_user :: "jsvalue option"

section \<open>Token codec (token.ts)\<close>

text \<open>
  \<open>coerceExpiration\<close>, with \<open>Date.now()\<close> as the parameter \<open>now\<close>. The source's last
  branch throws on a value that is neither a number, a \<open>Date\<close> nor \<open>undefined\<close>; the
  declared parameter type has no such value.
\<close>

fun coerceExpiration :: "int \<Rightarrow> expiration option \<Rightarrow> int option" where
  "coerceExpiration now (Some (Number exp)) = Some (now + exp * 1000)"
| "coerceExpiration now (Some (Date t)) = Some t"
| "coerceExpiration now None = None"

text \<open>\<open>!!s\<close> for a string and \<open>!n\<close> for an optional number.\<close>

definition truthy_string :: "string \<Rightarrow> bool" where
  "truthy_string s = (s \<noteq> [])"

fun falsy_number :: "int option \<Rightarrow> bool" where
  "falsy_number None = True"
| "falsy_number (Some n) = (n = 0)"

text \<open>
  \<open>return !!bundle.token && (!bundle.expiresAt || bundle.expiresAt >= Date.now())\<close>
\<close>

definition isTokenBundleValid :: "int \<Rightarrow> TokenBundle \<Rightarrow> bool" where
  "isTokenBundleValid now bundle =
     (truthy_string (token bundle) \<and>
      (if falsy_number (expiresAt bundle) then True
       else (case expiresAt bundle of Some e \<Rightarrow> now \<le> e | None \<Rightarrow> True)))"

section \<open>Accessors (hooks.ts, guard.tsx)\<close>

text \<open>
  \<open>useAuth\<close> reads the context (the state; the actions it carries play no role here) and
  replaces the two bundles by flags. \<open>!!auth\<close> on an object or \<open>undefined\<close> is presence.
\<close>

record UseAuthReturn =
  rest_initialized :: bool
  rest_user :: "jsvalue option"
  isAuthenticated :: bool
  isRenewEnabled :: bool

definition useAuth :: "AuthState \<Rightarrow> UseAuthReturn" where
  "useAuth ctx =
     \<lparr>rest_initialized = initialized ctx,
      rest_user = user ctx,
      isAuthenticated = (case auth ctx of Some b \<Rightarrow> True | None \<Rightarrow> False),
      isRenewEnabled = (case renew ctx of Some b \<Rightarrow> True | None \<Rightarrow> False)\<rparr>"

definition useIsAuthenticated :: "AuthState \<Rightarrow> bool" where
  "useIsAuthenticated ctx = isAuthenticated (useAuth ctx)"

text \<open>
  \<open>AuthGuard\<close>: \<open>showAuth\<close> defaults to true, \<open>showUnAuth\<close> has no default (so a
  missing one is falsy). The result is the children or nothing.
\<close>

record AuthGuardProps =
  showAuth :: "bool option"
  showUnAuth :: "bool option"

definition AuthGuard :: "AuthGuardProps \<Rightarrow> 'c \<Rightarrow> AuthState \<Rightarrow> 'c option" where
  "AuthGuard props children ctx =
     (let showAuth' = (case showAuth props of None \<Rightarrow> True | Some b \<Rightarrow> b);
          showUnAuth' = (case showUnAuth props of None \<Rightarrow> False | Some b \<Rightarrow> b);
          a = useIsAuthenticated ctx
      in if (a \<and> showAuth') \<or> (\<not> a \<and> showUnAuth') then Some children else None)"

section \<open>The provider (AuthProvider)\<close>

text \<open>
  The external callbacks return promises. A callback's promise resolves, rejects with some
  reason, or never settles; the model takes what it does as the callback's value.
\<close>

datatype 'a outcome = Resolves 'a | Rejects string | Unsettled

text \<open>
  The two configuration errors the provider throws itself, and a callback's rejection, which
  an \<open>await\<close> rethrows unchanged.
\<close>

datatype error = NoSignInHandler | NoRenewHandler | CallbackError string

datatype 'a promise = Fulfilled 'a | Rejected error | Pending

text \<open>
  \<open>AuthProviderProps\<close>. \<open>onTokenChange\<close> returns nothing, so the model keeps only whether
  it is configured and records its invocations in a log. \<open>authStorage\<close> and
  \<open>authPrefix\<close> select where the state is persisted and are left out.
\<close>

record ('si, 'rf, 'so) AuthProviderProps =
  devToken :: "string option"
  devSignedIn :: bool
  devUser :: "jsvalue option"
  doSignIn :: "(AuthState \<Rightarrow> 'si option \<Rightarrow> AuthActionResult outcome) option"
  doRenew :: "(AuthState \<Rightarrow> 'rf option \<Rightarrow> AuthActionResult outcome) option"
  doSignOut :: "(AuthState \<Rightarrow> 'so option \<Rightarrow> unit outcome) option"
  onTokenChange :: bool
  renewOnMount :: bool

text \<open>Truthiness of an optional string (\<open>devToken\<close>, \<open>res.renew\<close>, \<open>state.auth?.token\<close>).\<close>

fun truthy_opt_string :: "string option \<Rightarrow> bool" where
  "truthy_opt_string None = False"
| "truthy_opt_string (Some s) = truthy_string s"

fun truthy_opt :: "jsvalue option \<Rightarrow> bool" where
  "truthy_opt None = False"
| "truthy_opt (Some v) = truthy v"

text \<open>
  Modelled from the spec: the setter returned by \<open>useStorage\<close> of \<open>@reactit/hooks\<close>, which
  is not among the sources. By the spec (4.4) it takes the next state, or a function from
  the latest state to the next one. \<open>store\<close> is the latest state when the setter runs.
\<close>

datatype setStateAction = Value AuthState | Updater "AuthState \<Rightarrow> AuthState"

fun setState :: "setStateAction \<Rightarrow> AuthState \<Rightarrow> AuthState" where
  "setState (Value v) store = v"
| "setState (Updater f) store = f store"

text \<open>The default handed to \<open>useStorage\<close>: the state when nothing is persisted.\<close>

definition initialState :: "('si, 'rf, 'so) AuthProviderProps \<Rightarrow> AuthState" where
  "initialState cfg =
     (if devSignedIn cfg \<and> truthy_opt_string (devToken cfg)
      then \<lparr>initialized = True,
            auth = Some \<lparr>token = (case devToken cfg of Some t \<Rightarrow> t | None \<Rightarrow> []), expiresAt = None\<rparr>,
            renew = None, user = None\<rparr>
      else \<lparr>initialized = False, auth = None, renew = None, user = None\<rparr>)"

subsection \<open>Actions\<close>

text \<open>
  In the operations below \<open>state\<close> is the state of the render whose closure runs (what the
  source calls \<open>state\<close>), \<open>store\<close> is the latest state at the moment the operation
  commits, and \<open>now\<close> is \<open>Date.now()\<close> at that moment. Each operation returns how its
  promise settles together with the store it leaves. The updater's argument, \<open>_state\<close> in
  the source, is \<open>latest\<close> here.
\<close>

definition processExit :: "AuthState \<Rightarrow> AuthState" where
  "processExit store =
     setState (Value \<lparr>initialized = True, auth = None, renew = None, user = None\<rparr>) store"

definition processResult :: "int \<Rightarrow> AuthActionResult \<Rightarrow> AuthState \<Rightarrow> AuthState" where
  "processResult now res store =
     setState (Updater (\<lambda>latest.
       \<lparr>initialized = True,
        auth = Some \<lparr>token = res_token res,
                     expiresAt = coerceExpiration now (tokenExpiration res)\<rparr>,
        renew = (if truthy_opt_string (res_renew res)
                 then Some \<lparr>token = (case res_renew res of Some r \<Rightarrow> r | None \<Rightarrow> []),
                            expiresAt = coerceExpiration now (renewExpiration res)\<rparr>
                 else renew latest),
        user = (if truthy_opt (res_user res) then res_user res else user latest)\<rparr>)) store"

text \<open>\<open>setAuth: processResult\<close> in the context value.\<close>

definition setAuth :: "int \<Rightarrow> AuthActionResult \<Rightarrow> AuthState \<Rightarrow> AuthState" where
  "setAuth now res store = processResult now res store"

text \<open>
  \<open>{ ...lastDev.current, tokenExpiration: undefined }\<close>: the development token and user,
  no expiration, no renewal token.
\<close>

definition devResult :: "('si, 'rf, 'so) AuthProviderProps \<Rightarrow> AuthActionResult" where
  "devResult cfg =
     \<lparr>res_token = (case devToken cfg of Some t \<Rightarrow> t | None \<Rightarrow> []),
      tokenExpiration = None, res_renew = None, renewExpiration = None,
      res_user = devUser cfg\<rparr>"

definition signInAsync ::
  "('si, 'rf, 'so) AuthProviderProps \<Rightarrow> int \<Rightarrow> AuthState \<Rightarrow> 'si option \<Rightarrow> AuthState
     \<Rightarrow> AuthActionResult promise \<times> AuthState" where
  "signInAsync cfg now state input store =
     (if truthy_opt_string (devToken cfg)
      then (Fulfilled (devResult cfg), processResult now (devResult cfg) store)
      else (case doSignIn cfg of
              Some f \<Rightarrow>
                (case f state input of
                   Resolves res \<Rightarrow> (Fulfilled res, processResult now res store)
                 | Rejects r \<Rightarrow> (Rejected (CallbackError r), store)
                 | Unsettled \<Rightarrow> (Pending, store))
            | None \<Rightarrow> (Rejected NoSignInHandler, store)))"

definition renewTokenAsync ::
  "('si, 'rf, 'so) AuthProviderProps \<Rightarrow> int \<Rightarrow> AuthState \<Rightarrow> 'rf option \<Rightarrow> AuthState
     \<Rightarrow> AuthActionResult promise \<times> AuthState" where
  "renewTokenAsync cfg now state input store =
     (case doRenew cfg of
        None \<Rightarrow> (Rejected NoRenewHandler, store)
      | Some f \<Rightarrow>
          (case f state input of
             Resolves res \<Rightarrow> (Fulfilled res, processResult now res store)
           | Rejects r \<Rightarrow> (Rejected (CallbackError r), store)
           | Unsettled \<Rightarrow> (Pending, store)))"

text \<open>The \<open>try\<close>/\<open>catch\<close> around the awaited callback discards a rejection.\<close>

definition signOutAsync ::
  "('si, 'rf, 'so) AuthProviderProps \<Rightarrow> AuthState \<Rightarrow> 'so option \<Rightarrow> AuthState
     \<Rightarrow> unit promise \<times> AuthState" where
  "signOutAsync cfg state input store =
     (case doSignOut cfg of
        Some f \<Rightarrow>
          (case f state input of
             Resolves u \<Rightarrow> (Fulfilled (), processExit store)
           | Rejects r \<Rightarrow> (Fulfilled (), processExit store)
           | Unsettled \<Rightarrow> (Pending, store))
      | None \<Rightarrow> (Fulfilled (), processExit store))"

subsection \<open>Reconciliation pass and expiration timers\<close>

text \<open>
  \<open>const authInv = state.auth && !isTokenBundleValid(state.auth)\<close>, and the same for the
  renew bundle: an absent bundle is not invalid.
\<close>

definition authInv :: "int \<Rightarrow> AuthState \<Rightarrow> bool" where
  "authInv now state =
     (case auth state of Some b \<Rightarrow> \<not> isTokenBundleValid now b | None \<Rightarrow> False)"

definition renewInv :: "int \<Rightarrow> AuthState \<Rightarrow> bool" where
  "renewInv now state =
     (case renew state of Some b \<Rightarrow> \<not> isTokenBundleValid now b | None \<Rightarrow> False)"

text \<open>
  The condition under which the pass awaits \<open>renewTokenAsync(undefined)\<close>:
  \<open>(isFirst.current && renewOnMount) || !state.auth || authInv\<close>.
\<close>

definition renewWanted ::
  "('si, 'rf, 'so) AuthProviderProps \<Rightarrow> bool \<Rightarrow> int \<Rightarrow> AuthState \<Rightarrow> bool" where
  "renewWanted cfg isFirst now state =
     ((isFirst \<and> renewOnMount cfg) \<or> auth state = None \<or> authInv now state)"

text \<open>
  The second \<open>if\<close> of the pass: \<open>if (isFirst.current || authInv || renewInv) setState({...state,
  initialized: true, auth: authInv ? undefined : state.auth, renew: renewInv ? undefined :
  state.renew})\<close>. It writes the pass's own \<open>state\<close>, not the latest one.
\<close>

definition invalidate :: "bool \<Rightarrow> int \<Rightarrow> AuthState \<Rightarrow> AuthState \<Rightarrow> AuthState" where
  "invalidate isFirst now state store =
     (if isFirst \<or> authInv now state \<or> renewInv now state
      then setState (Value (state\<lparr>initialized := True,
                                 auth := (if authInv now state then None else auth state),
                                 renew := (if renewInv now state then None else renew state)\<rparr>))
             store
      else store)"

text \<open>
  How a pass ends: by the \<open>return\<close> after a successful renewal, at its last statement
  \<open>isFirst.current = false\<close>, or never, when the awaited renewal does not settle.
\<close>

datatype pass_end = Renewed | FellThrough | Suspended

text \<open>
  The pass, as the body of \<open>useAsyncEffect\<close>. \<open>isFirst\<close> is \<open>isFirst.current\<close> when the
  pass starts; the result holds its value when the pass ends. \<open>now\<close> is the time of the
  validity tests, \<open>now'\<close> the time at which a renewal commits.
\<close>

definition reconcile ::
  "('si, 'rf, 'so) AuthProviderProps \<Rightarrow> int \<Rightarrow> int \<Rightarrow> bool \<Rightarrow> AuthState \<Rightarrow> AuthState
     \<Rightarrow> pass_end \<times> AuthState \<times> bool" where
  "reconcile cfg now now' isFirst state store =
     (if renewWanted cfg isFirst now state
      then (case renewTokenAsync cfg now' state None store of
              (Fulfilled res, store') \<Rightarrow> (Renewed, store', isFirst)
            | (Rejected e, store') \<Rightarrow> (FellThrough, invalidate isFirst now state store', False)
            | (Pending, store') \<Rightarrow> (Suspended, store', isFirst))
      else (FellThrough, invalidate isFirst now state store, False))"

text \<open>
  The task of the auth-expiration timer: renew, and on failure
  \<open>setState({ ...state, auth: undefined })\<close>.
\<close>

definition authExpired ::
  "('si, 'rf, 'so) AuthProviderProps \<Rightarrow> int \<Rightarrow> AuthState \<Rightarrow> AuthState \<Rightarrow> AuthState" where
  "authExpired cfg now state store =
     (case renewTokenAsync cfg now state None store of
        (Fulfilled res, store') \<Rightarrow> store'
      | (Rejected e, store') \<Rightarrow> setState (Value (state\<lparr>auth := None\<rparr>)) store'
      | (Pending, store') \<Rightarrow> store')"

text \<open>The task of the renew-expiration timer: \<open>setState({ ...state, renew: undefined })\<close>.\<close>

definition renewExpired :: "AuthState \<Rightarrow> AuthState \<Rightarrow> AuthState" where
  "renewExpired state store = setState (Value (state\<lparr>renew := None\<rparr>)) store"

subsection \<open>Token-change notification\<close>

text \<open>
  An invocation \<open>onTokenChange(state, token)\<close> is recorded as the pair of its arguments.
  \<open>tokenOf\<close> is \<open>state.auth?.token\<close>.
\<close>

type_synonym notification = "AuthState \<times> Token option"

definition tokenOf :: "AuthState \<Rightarrow> Token option" where
  "tokenOf state = (case auth state of Some b \<Rightarrow> Some (token b) | None \<Rightarrow> None)"

text \<open>
  The statement in the render body: \<open>if (onTokenChange && state.auth?.token &&
  !mounted.current) { mounted.current = true; onTokenChange(state, state.auth.token) }\<close>.
  It returns the new \<open>mounted.current\<close> and the invocations made.
\<close>

definition renderNotify :: "bool \<Rightarrow> bool \<Rightarrow> AuthState \<Rightarrow> bool \<times> notification list" where
  "renderNotify cb mounted state =
     (if cb \<and> truthy_opt_string (tokenOf state) \<and> \<not> mounted
      then (True, [(state, tokenOf state)])
      else (mounted, []))"

text \<open>
  The effect with the dependency list \<open>[state.auth?.token]\<close>. React runs such an effect
  after the first render and after every render whose dependency differs from the previous
  render's; \<open>deps\<close> is the previous render's dependency, \<open>None\<close> before the first render.
\<close>

definition effectNotify :: "bool \<Rightarrow> Token option option \<Rightarrow> AuthState \<Rightarrow> notification list" where
  "effectNotify cb deps state =
     (if deps = Some (tokenOf state) then []
      else if \<not> cb then []
      else [(state, tokenOf state)])"

text \<open>
  The invocations over a sequence of renders, one per state the provider goes through, and
  the two references after it.
\<close>

fun renders :: "bool \<Rightarrow> bool \<Rightarrow> Token option option \<Rightarrow> AuthState list \<Rightarrow> notification list" where
  "renders cb mounted deps [] = []"
| "renders cb mounted deps (state # later) =
     snd (renderNotify cb mounted state) @ effectNotify cb deps state @
     renders cb (fst (renderNotify cb mounted state)) (Some (tokenOf state)) later"

fun refsAfter :: "bool \<Rightarrow> bool \<Rightarrow> Token option option \<Rightarrow> AuthState list
                   \<Rightarrow> bool \<times> Token option option" where
  "refsAfter cb mounted deps [] = (mounted, deps)"
| "refsAfter cb mounted deps (state # later) =
     refsAfter cb (fst (renderNotify cb mounted state)) (Some (tokenOf state)) later"

definition notifications :: "bool \<Rightarrow> AuthState list \<Rightarrow> notification list" where
  "notifications cb states = renders cb False None states"

text \<open>
  The number of invocations as the claim words it, for comparison: one for a loaded state
  that is already authenticated, and after that one per change of the resolved token from
  one render to the next.
\<close>

fun tokenChanges :: "Token option \<Rightarrow> AuthState list \<Rightarrow> nat" where
  "tokenChanges prev [] = 0"
| "tokenChanges prev (state # later) =
     (if tokenOf state = prev then 0 else 1) + tokenChanges (tokenOf state) later"

fun claimedNotificationCount :: "AuthState list \<Rightarrow> nat" where
  "claimedNotificationCount [] = 0"
| "claimedNotificationCount (loaded # later) =
     (if truthy_opt_string (tokenOf loaded) then 1 else 0) + tokenChanges (tokenOf loaded) later"

subsection \<open>The provider over time\<close>

text \<open>
  The provider between two events: the latest state, the states some render has seen (a
  closure that runs later holds one of them as its \<open>state\<close>), and \<open>isFirst.current\<close>.
\<close>

record provider =
  current :: AuthState
  rendered :: "AuthState list"
  isFirst_current :: bool

definition mount :: "AuthState \<Rightarrow> provider" where
  "mount loaded = \<lparr>current = loaded, rendered = [loaded], isFirst_current = True\<rparr>"

definition commit :: "AuthState \<Rightarrow> provider \<Rightarrow> provider" where
  "commit next p = p\<lparr>current := next, rendered := next # rendered p\<rparr>"

text \<open>
  One event of the provider. Every action and every pass runs with the state of some earlier
  render and commits against the latest one. \<open>Remount\<close> is a reload of the page: the
  persisted state is loaded into a fresh provider.
\<close>

text \<open>
  Modelled from the spec: when a timer's task runs. The hook \<open>useScheduledEffect\<close> of
  \<open>@reactit/hooks\<close> is not among the sources; by the spec (4.2) no timer is armed for an
  absent instant, so in \<open>AuthTimer\<close> and \<open>RenewTimer\<close> the task runs only with a state
  whose bundle carries an \<open>expiresAt\<close>.
\<close>

inductive step :: "('si, 'rf, 'so) AuthProviderProps \<Rightarrow> provider \<Rightarrow> provider \<Rightarrow> bool"
  for cfg :: "('si, 'rf, 'so) AuthProviderProps" where
  SignIn: "state \<in> set (rendered p) \<Longrightarrow>
      step cfg p (commit (snd (signInAsync cfg now state input (current p))) p)"
| RenewToken: "state \<in> set (rendered p) \<Longrightarrow>
      step cfg p (commit (snd (renewTokenAsync cfg now state input (current p))) p)"
| SignOut: "state \<in> set (rendered p) \<Longrightarrow>
      step cfg p (commit (snd (signOutAsync cfg state input (current p))) p)"
| SetAuth: "step cfg p (commit (setAuth now res (current p)) p)"
| Reconcile: "state \<in> set (rendered p) \<Longrightarrow>
      reconcile cfg now now' (isFirst_current p) state (current p) = (how, next, first') \<Longrightarrow>
      step cfg p ((commit next p)\<lparr>isFirst_current := first'\<rparr>)"
| AuthTimer: "state \<in> set (rendered p) \<Longrightarrow> auth state = Some b \<Longrightarrow> expiresAt b = Some e \<Longrightarrow>
      step cfg p (commit (authExpired cfg now state (current p)) p)"
| RenewTimer: "state \<in> set (rendered p) \<Longrightarrow> renew state = Some b \<Longrightarrow> expiresAt b = Some e \<Longrightarrow>
      step cfg p (commit (renewExpired state (current p)) p)"
| Remount: "step cfg p (mount (current p))"

text \<open>
  Modelled from the spec: the first state \<open>useStorage\<close> returns (the hook is not among the
  sources). By the spec (4.4) it is the state loaded from storage, or the default when
  nothing is persisted. \<open>persisted\<close> is what the storage holds when the provider mounts.
\<close>

definition loadState :: "('si, 'rf, 'so) AuthProviderProps \<Rightarrow> AuthState option \<Rightarrow> AuthState" where
  "loadState cfg persisted =
     (case persisted of None \<Rightarrow> initialState cfg | Some loaded \<Rightarrow> loaded)"

definition reachable ::
  "('si, 'rf, 'so) AuthProviderProps \<Rightarrow> AuthState option \<Rightarrow> provider \<Rightarrow> bool" where
  "reachable cfg persisted p = (step cfg)\<^sup>*\<^sup>* (mount (loadState cfg persisted)) p"

text \<open>A state that is initialized if it holds a bundle.\<close>

definition coherent :: "AuthState \<Rightarrow> bool" where
  "coherent s = (initialized s \<or> (auth s = None \<and> renew s = None))"

text \<open>
  The invariant of the states a render has seen: the latest state is among them, and one
  that holds a bundle is initialized.
\<close>

definition wellRendered :: "provider \<Rightarrow> bool" where
  "wellRendered p =
     (current p \<in> set (rendered p) \<and>
      (\<forall>s \<in> set (rendered p). (auth s \<noteq> None \<or> renew s \<noteq> None) \<longrightarrow> initialized s))"

subsection \<open>Single flight\<close>

text \<open>The three operations the provider wraps in \<open>useSharedPromise\<close>; they are the keys.\<close>

datatype operation = SignInOp | RenewOp | SignOutOp

text \<open>
  Modelled from the spec: the single-flight executor, \<open>useSharedPromise\<close> of
  \<open>@reactit/hooks\<close>, which is not among the sources. By the spec (4.3): if no invocation is
  in flight for the key, the function is invoked and its promise tracked; if one is in
  flight, the existing promise is returned unchanged and the function is not invoked; once
  the promise settles it is cleared. A promise is a handle together with what it settles
  to; \<open>invoked\<close> counts the invocations of the wrapped function per key, and \<open>handles\<close>
  is the next unused handle.
\<close>

record 'a executor =
  inflight :: "operation \<Rightarrow> (nat \<times> 'a) option"
  invoked :: "operation \<Rightarrow> nat"
  handles :: nat

definition run :: "operation \<Rightarrow> (unit \<Rightarrow> 'a) \<Rightarrow> 'a executor \<Rightarrow> (nat \<times> 'a) \<times> 'a executor" where
  "run key fn ex =
     (case inflight ex key of
        Some p \<Rightarrow> (p, ex)
      | None \<Rightarrow>
          ((handles ex, fn ()),
           ex\<lparr>inflight := (inflight ex)(key := Some (handles ex, fn ())),
              invoked := (invoked ex)(key := Suc (invoked ex key)),
              handles := Suc (handles ex)\<rparr>))"

definition settle :: "operation \<Rightarrow> 'a executor \<Rightarrow> 'a executor" where
  "settle key ex = ex\<lparr>inflight := (inflight ex)(key := None)\<rparr>"



definition renewTokenShared ::
  "('si, 'rf, 'so) AuthProviderProps \<Rightarrow> int \<Rightarrow> AuthState \<Rightarrow> AuthState \<Rightarrow> 'rf option
     \<Rightarrow> unit \<Rightarrow> AuthActionResult promise \<times> AuthState" where
  "renewTokenShared cfg now state store input = (\<lambda>u. renewTokenAsync cfg now state input store)"

definition signOutShared ::
  "('si, 'rf, 'so) AuthProviderProps \<Rightarrow> AuthState \<Rightarrow> AuthState \<Rightarrow> 'so option
     \<Rightarrow> unit \<Rightarrow> unit promise \<times> AuthState" where
  "signOutShared cfg state store input = (\<lambda>u. signOutAsync cfg state input store)"

subsection \<open>Nullish coalescing\<close>

text \<open>\<open>a ?? b\<close>: \<open>b\<close> when \<open>a\<close> is \<open>null\<close> or \<open>undefined\<close>, else \<open>a\<close>.\<close>

fun nullish :: "jsvalue option \<Rightarrow> jsvalue option \<Rightarrow> jsvalue option" where
  "nullish None b = b"
| "nullish (Some JNull) b = b"
| "nullish (Some v) b = Some v"

subsection \<open>Values for the examples\<close>

definition noProps :: "(unit, unit, unit) AuthProviderProps" where
  "noProps =
     \<lparr>devToken = None, devSignedIn = False, devUser = None,
      doSignIn = None, doRenew = None, doSignOut = None,
      onTokenChange = False, renewOnMount = False\<rparr>"

definition signedOut :: AuthState where
  "signedOut = \<lparr>initialized = True, auth = None, renew = None, user = None\<rparr>"

definition signedIn :: AuthState where
  "signedIn =
     \<lparr>initialized = True, auth = Some \<lparr>token = ''abc'', expiresAt = None\<rparr>,
      renew = Some \<lparr>token = ''r1'', expiresAt = None\<rparr>, user = Some (JNum 7)\<rparr>"

definition sampleResult :: AuthActionResult where
  "sampleResult =
     \<lparr>res_token = ''xyz'', tokenExpiration = Some (Number 900), res_renew = None,
      renewExpiration = None, res_user = None\<rparr>"

text \<open>A configuration that renews on mount, with a \<open>doRenew\<close> that always succeeds.\<close>

definition renewingProps :: "(unit, unit, unit) AuthProviderProps" where
  "renewingProps = noProps\<lparr>doRenew := Some (\<lambda>ctx input. Resolves sampleResult),
                            renewOnMount := True\<rparr>"

text \<open>A provider mounted on empty storage with no callbacks, and the same after its first pass.\<close>

definition freshProvider :: provider where
  "freshProvider = mount (loadState noProps None)"

definition afterFirstPass :: provider where
  "afterFirstPass = (commit signedOut freshProvider)\<lparr>isFirst_current := False\<rparr>"

text \<open>A configuration that starts signed in with a development token.\<close>

definition devSignedInProps :: "(unit, unit, unit) AuthProviderProps" where
  "devSignedInProps = noProps\<lparr>devToken := Some ''dev'', devSignedIn := True\<rparr>"

text \<open>
  A persisted state that holds an expired auth bundle and is not initialized; the provider
  mounted on it with no callbacks, after its first pass, and after the auth timer's task.
\<close>

definition staleLoaded :: AuthState where
  "staleLoaded =
     \<lparr>initialized = False, auth = Some \<lparr>token = ''abc'', expiresAt = Some 1000\<rparr>,
      renew = None, user = None\<rparr>"

definition staleProvider :: provider where
  "staleProvider = mount (loadState noProps (Some staleLoaded))"

definition staleAfterPass :: provider where
  "staleAfterPass = (commit signedOut staleProvider)\<lparr>isFirst_current := False\<rparr>"

definition staleAfterTimer :: provider where
  "staleAfterTimer = commit (staleLoaded\<lparr>auth := None\<rparr>) staleAfterPass"



section \<open>Token codec: properties\<close>

lemma isTokenBundleValid_iff:
  "isTokenBundleValid now b \<longleftrightarrow>
     token b \<noteq> [] \<and>
     (expiresAt b = None \<or> expiresAt b = Some 0 \<or> (\<exists>e. expiresAt b = Some e \<and> now \<le> e))"
  by (cases "expiresAt b") (auto simp: isTokenBundleValid_def truthy_string_def)

text \<open>
  Claim C9. The claim says that a bundle is valid iff its token is non-empty and it has no
  \<open>expiresAt\<close> or \<open>expiresAt >= now\<close>. The source tests \<open>!bundle.expiresAt\<close>, which
  also holds for the instant 0: a bundle that carries the expiration instant 0 (what
  \<open>coerceExpiration\<close> returns for \<open>new Date(0)\<close>) is reported valid at every later time,
  although its \<open>expiresAt\<close> exists and is strictly in the past.
\<close>

theorem isTokenBundleValid_epoch_expiry:
  "coerceExpiration 1700000000000 (Some (Date 0)) = Some 0 \<and>
   isTokenBundleValid 1700000000000 \<lparr>token = ''abc'', expiresAt = Some 0\<rparr> = True"
  by (simp add: isTokenBundleValid_def truthy_string_def)

text \<open>
  Claim C10. The authenticated status at the public interface is the presence of the auth
  bundle, whatever its validity: \<open>useAuth().isAuthenticated\<close> and
  \<open>useIsAuthenticated()\<close> are true exactly when the state holds an auth bundle,
  \<open>AuthGuard\<close> renders on that flag alone, and a state whose auth bundle has already
  expired (and is invalid by \<open>isTokenBundleValid\<close>) still counts as authenticated.
\<close>

theorem isAuthenticated_presence_only:
  "isAuthenticated (useAuth ctx) = (auth ctx \<noteq> None) \<and>
   useIsAuthenticated ctx = (auth ctx \<noteq> None) \<and>
   AuthGuard props children ctx =
     (if (auth ctx \<noteq> None \<and> showAuth props \<noteq> Some False) \<or>
         (auth ctx = None \<and> showUnAuth props = Some True)
      then Some children else None) \<and>
   (\<forall>b e. auth ctx = Some b \<and> expiresAt b = Some e \<and> e < now \<and> e \<noteq> 0 \<longrightarrow>
      \<not> isTokenBundleValid now b \<and> isAuthenticated (useAuth ctx) \<and> useIsAuthenticated ctx \<and>
      AuthGuard \<lparr>showAuth = None, showUnAuth = None\<rparr> children ctx = Some children)"
proof -
  have flag: "isAuthenticated (useAuth ctx) = (auth ctx \<noteq> None)"
    by (simp add: useAuth_def split: option.splits)
  have hook: "useIsAuthenticated ctx = (auth ctx \<noteq> None)"
    by (simp add: useIsAuthenticated_def flag)
  have guard: "AuthGuard props children ctx =
     (if (auth ctx \<noteq> None \<and> showAuth props \<noteq> Some False) \<or>
         (auth ctx = None \<and> showUnAuth props = Some True)
      then Some children else None)"
    by (cases "showAuth props"; cases "showUnAuth props")
       (auto simp: AuthGuard_def hook)
  have expired: "\<not> isTokenBundleValid now b" if "expiresAt b = Some e" "e < now" "e \<noteq> 0"
    for b e
    using that by (simp add: isTokenBundleValid_iff)
  show ?thesis
    using flag hook guard expired by (auto simp: AuthGuard_def)
qed

theorem isAuthenticated_presence_only_witness:
  "auth \<lparr>initialized = True, auth = Some \<lparr>token = ''abc'', expiresAt = Some 1000\<rparr>,
          renew = None, user = None\<rparr> = Some \<lparr>token = ''abc'', expiresAt = Some 1000\<rparr> \<and>
   (1000::int) < 2000 \<and>
   \<not> isTokenBundleValid 2000 \<lparr>token = ''abc'', expiresAt = Some 1000\<rparr> \<and>
   useIsAuthenticated \<lparr>initialized = True, auth = Some \<lparr>token = ''abc'', expiresAt = Some 1000\<rparr>,
          renew = None, user = None\<rparr> \<and>
   AuthGuard \<lparr>showAuth = None, showUnAuth = None\<rparr> ''page''
      \<lparr>initialized = True, auth = Some \<lparr>token = ''abc'', expiresAt = Some 1000\<rparr>,
          renew = None, user = None\<rparr> = Some ''page''"
  using isAuthenticated_presence_only
    [of "\<lparr>initialized = True, auth = Some \<lparr>token = ''abc'', expiresAt = Some 1000\<rparr>,
          renew = None, user = None\<rparr>" "\<lparr>showAuth = None, showUnAuth = None\<rparr>" "''page''" 2000]
  by simp

section \<open>Actions: properties\<close>

lemma signInAsync_dev:
  "truthy_opt_string (devToken cfg) \<Longrightarrow>
   signInAsync cfg now state input store =
     (Fulfilled (devResult cfg), processResult now (devResult cfg) store)"
  by (simp add: signInAsync_def)

lemma signInAsync_callback:
  "\<not> truthy_opt_string (devToken cfg) \<Longrightarrow> doSignIn cfg = Some f \<Longrightarrow>
   signInAsync cfg now state input store =
     (case f state input of
        Resolves res \<Rightarrow> (Fulfilled res, processResult now res store)
      | Rejects r \<Rightarrow> (Rejected (CallbackError r), store)
      | Unsettled \<Rightarrow> (Pending, store))"
  by (simp add: signInAsync_def)

lemma signInAsync_no_handler:
  "\<not> truthy_opt_string (devToken cfg) \<Longrightarrow> doSignIn cfg = None \<Longrightarrow>
   signInAsync cfg now state input store = (Rejected NoSignInHandler, store)"
  by (simp add: signInAsync_def)

lemma truthy_opt_string_iff: "truthy_opt_string x \<longleftrightarrow> (\<exists>t. x = Some t \<and> t \<noteq> [])"
  by (cases x) (simp_all add: truthy_string_def)

lemma auth_processResult:
  "auth (processResult now res store) =
     Some \<lparr>token = res_token res, expiresAt = coerceExpiration now (tokenExpiration res)\<rparr>"
  by (simp add: processResult_def)

lemma initialized_processResult: "initialized (processResult now res store)"
  by (simp add: processResult_def)

lemma renew_processResult:
  "renew (processResult now res store) =
     (if truthy_opt_string (res_renew res)
      then Some \<lparr>token = (case res_renew res of Some r \<Rightarrow> r | None \<Rightarrow> []),
                 expiresAt = coerceExpiration now (renewExpiration res)\<rparr>
      else renew store)"
  by (simp add: processResult_def)

lemma user_processResult:
  "user (processResult now res store) =
     (if truthy_opt (res_user res) then res_user res else user store)"
  by (simp add: processResult_def)

lemma nullish_truthy: "truthy_opt a \<Longrightarrow> nullish a b = a"
proof (induction a b rule: nullish.induct)
qed simp_all

text \<open>
  Claim C1. Whatever the configuration, the state of the calling render and the latest
  state: when \<open>signOutAsync\<close> completes, it has fulfilled and the state is exactly
  \<open>{initialized: true}\<close>, with \<open>auth\<close>, \<open>renew\<close> and \<open>user\<close> absent. This includes the
  case of a \<open>doSignOut\<close> that rejects; \<open>signOutAsync\<close> never rejects, and it fails to
  complete only when \<open>doSignOut\<close> never settles.
\<close>

theorem signOutAsync_always_clears:
  "(fst (signOutAsync cfg state input store) \<noteq> Pending \<longrightarrow>
      signOutAsync cfg state input store =
        (Fulfilled (), \<lparr>initialized = True, auth = None, renew = None, user = None\<rparr>)) \<and>
   (\<forall>f r. doSignOut cfg = Some f \<and> f state input = Rejects r \<longrightarrow>
      signOutAsync cfg state input store =
        (Fulfilled (), \<lparr>initialized = True, auth = None, renew = None, user = None\<rparr>)) \<and>
   (\<forall>e. fst (signOutAsync cfg state input store) \<noteq> Rejected e) \<and>
   (fst (signOutAsync cfg state input store) = Pending \<longleftrightarrow>
      (\<exists>f. doSignOut cfg = Some f \<and> f state input = Unsettled))"
  by (auto simp: signOutAsync_def processExit_def split: option.splits outcome.splits)

theorem signOutAsync_always_clears_witness:
  "doSignOut (noProps\<lparr>doSignOut := Some (\<lambda>ctx input. Rejects ''network down'')\<rparr>)
     = Some (\<lambda>ctx input. Rejects ''network down'') \<and>
   fst (signOutAsync (noProps\<lparr>doSignOut := Some (\<lambda>ctx input. Rejects ''network down'')\<rparr>)
          signedIn None signedIn) \<noteq> Pending \<and>
   signOutAsync (noProps\<lparr>doSignOut := Some (\<lambda>ctx input. Rejects ''network down'')\<rparr>)
     signedIn None signedIn
   = (Fulfilled (), \<lparr>initialized = True, auth = None, renew = None, user = None\<rparr>)"
proof -
  let ?cfg = "noProps\<lparr>doSignOut := Some (\<lambda>ctx input. Rejects ''network down'')\<rparr>"
  have cb: "doSignOut ?cfg = Some (\<lambda>ctx input. Rejects ''network down'')"
    by simp
  have settled: "fst (signOutAsync ?cfg signedIn None signedIn) \<noteq> Pending"
    by (simp add: signOutAsync_def)
  from signOutAsync_always_clears [of ?cfg signedIn None signedIn]
  have "fst (signOutAsync ?cfg signedIn None signedIn) \<noteq> Pending \<longrightarrow>
      signOutAsync ?cfg signedIn None signedIn =
        (Fulfilled (), \<lparr>initialized = True, auth = None, renew = None, user = None\<rparr>)"
    by (rule conjunct1)
  with settled cb show ?thesis
    by blast
qed

text \<open>
  Claim C6. \<open>renewTokenAsync\<close> rejects with the no-renew-handler error when no \<open>doRenew\<close>
  is configured; when \<open>doRenew\<close> rejects, the caller gets that rejection; and in every case
  but a fulfilled renewal the state is left as it was.
\<close>

theorem renewTokenAsync_failure_keeps_state:
  "(doRenew cfg = None \<longrightarrow>
      renewTokenAsync cfg now state input store = (Rejected NoRenewHandler, store)) \<and>
   (\<forall>f r. doRenew cfg = Some f \<and> f state input = Rejects r \<longrightarrow>
      renewTokenAsync cfg now state input store = (Rejected (CallbackError r), store)) \<and>
   ((\<forall>res. fst (renewTokenAsync cfg now state input store) \<noteq> Fulfilled res) \<longrightarrow>
      snd (renewTokenAsync cfg now state input store) = store)"
  by (auto simp: renewTokenAsync_def split: option.splits outcome.splits)

theorem renewTokenAsync_failure_keeps_state_witness:
  "doRenew noProps = None \<and>
   renewTokenAsync noProps 5000 signedIn None signedIn = (Rejected NoRenewHandler, signedIn) \<and>
   doRenew (noProps\<lparr>doRenew := Some (\<lambda>ctx input. Rejects ''401'')\<rparr>)
     = Some (\<lambda>ctx input. Rejects ''401'') \<and>
   renewTokenAsync (noProps\<lparr>doRenew := Some (\<lambda>ctx input. Rejects ''401'')\<rparr>)
     5000 signedIn None signedIn = (Rejected (CallbackError ''401''), signedIn)"
  using renewTokenAsync_failure_keeps_state [of noProps 5000 signedIn None signedIn]
    renewTokenAsync_failure_keeps_state
      [of "noProps\<lparr>doRenew := Some (\<lambda>ctx input. Rejects ''401'')\<rparr>" 5000 signedIn None signedIn]
  by (simp add: noProps_def)

text \<open>
  Claim C7. With a development token configured (a non-empty \<open>devToken\<close>), \<open>signInAsync\<close>
  fulfils with the synthetic result made of the development token and user, with no
  expiration, commits it (the auth bundle has no \<open>expiresAt\<close> and is valid at every later
  time), and \<open>doSignIn\<close> plays no role: replacing it by anything changes nothing. Without a
  development token, a configured \<open>doSignIn\<close> is called with the render's state and the
  input, and its outcome decides. The no-sign-in-handler rejection occurs exactly when
  neither is configured.
\<close>

theorem signInAsync_dev_bypass:
  "(truthy_opt_string (devToken cfg) \<longrightarrow>
      (\<exists>t. devToken cfg = Some t \<and> t \<noteq> [] \<and>
        signInAsync cfg now state input store =
          (Fulfilled \<lparr>res_token = t, tokenExpiration = None, res_renew = None,
                      renewExpiration = None, res_user = devUser cfg\<rparr>,
           processResult now \<lparr>res_token = t, tokenExpiration = None, res_renew = None,
                      renewExpiration = None, res_user = devUser cfg\<rparr> store) \<and>
        auth (snd (signInAsync cfg now state input store)) = Some \<lparr>token = t, expiresAt = None\<rparr> \<and>
        (\<forall>later. isTokenBundleValid later \<lparr>token = t, expiresAt = None\<rparr>)) \<and>
      (\<forall>g. signInAsync (cfg\<lparr>doSignIn := g\<rparr>) now state input store =
            signInAsync cfg now state input store)) \<and>
   (\<forall>f. \<not> truthy_opt_string (devToken cfg) \<and> doSignIn cfg = Some f \<longrightarrow>
      signInAsync cfg now state input store =
        (case f state input of
           Resolves res \<Rightarrow> (Fulfilled res, processResult now res store)
         | Rejects r \<Rightarrow> (Rejected (CallbackError r), store)
         | Unsettled \<Rightarrow> (Pending, store))) \<and>
   (fst (signInAsync cfg now state input store) = Rejected NoSignInHandler \<longleftrightarrow>
      \<not> truthy_opt_string (devToken cfg) \<and> doSignIn cfg = None)"
proof (intro conjI impI allI)
  assume dev: "truthy_opt_string (devToken cfg)"
  then obtain t where t: "devToken cfg = Some t" "t \<noteq> []"
    by (auto simp: truthy_opt_string_iff)
  have res: "devResult cfg = \<lparr>res_token = t, tokenExpiration = None, res_renew = None,
                      renewExpiration = None, res_user = devUser cfg\<rparr>"
    by (simp add: devResult_def t)
  have valid: "isTokenBundleValid later \<lparr>token = t, expiresAt = None\<rparr>" for later
    by (simp add: isTokenBundleValid_def truthy_string_def t)
  show "\<exists>t. devToken cfg = Some t \<and> t \<noteq> [] \<and>
        signInAsync cfg now state input store =
          (Fulfilled \<lparr>res_token = t, tokenExpiration = None, res_renew = None,
                      renewExpiration = None, res_user = devUser cfg\<rparr>,
           processResult now \<lparr>res_token = t, tokenExpiration = None, res_renew = None,
                      renewExpiration = None, res_user = devUser cfg\<rparr> store) \<and>
        auth (snd (signInAsync cfg now state input store)) = Some \<lparr>token = t, expiresAt = None\<rparr> \<and>
        (\<forall>later. isTokenBundleValid later \<lparr>token = t, expiresAt = None\<rparr>)"
    using t valid signInAsync_dev [OF dev, of now state input store]
    by (simp add: res auth_processResult)
next
  fix g
  assume dev: "truthy_opt_string (devToken cfg)"
  then have dev': "truthy_opt_string (devToken (cfg\<lparr>doSignIn := g\<rparr>))"
    by simp
  show "signInAsync (cfg\<lparr>doSignIn := g\<rparr>) now state input store =
        signInAsync cfg now state input store"
    by (simp add: signInAsync_dev [OF dev] signInAsync_dev [OF dev'] devResult_def)
next
  fix f
  assume "\<not> truthy_opt_string (devToken cfg) \<and> doSignIn cfg = Some f"
  then show "signInAsync cfg now state input store =
        (case f state input of
           Resolves res \<Rightarrow> (Fulfilled res, processResult now res store)
         | Rejects r \<Rightarrow> (Rejected (CallbackError r), store)
         | Unsettled \<Rightarrow> (Pending, store))"
    by (simp add: signInAsync_callback)
next
  show "(fst (signInAsync cfg now state input store) = Rejected NoSignInHandler) =
        (\<not> truthy_opt_string (devToken cfg) \<and> doSignIn cfg = None)"
  proof (cases "truthy_opt_string (devToken cfg)")
    case True
    then show ?thesis by (simp add: signInAsync_dev)
  next
    case False
    show ?thesis
    proof (cases "doSignIn cfg")
      case None
      with False show ?thesis by (simp add: signInAsync_no_handler)
    next
      case (Some f)
      with False show ?thesis
        by (cases "f state input") (simp_all add: signInAsync_callback)
    qed
  qed
qed

theorem signInAsync_dev_bypass_witness:
  "truthy_opt_string (devToken (noProps\<lparr>devToken := Some ''dev'', devUser := Some (JStr ''ann'')\<rparr>)) \<and>
   signInAsync (noProps\<lparr>devToken := Some ''dev'', devUser := Some (JStr ''ann'')\<rparr>)
       5000 signedOut None signedOut =
     (Fulfilled \<lparr>res_token = ''dev'', tokenExpiration = None, res_renew = None,
                 renewExpiration = None, res_user = Some (JStr ''ann'')\<rparr>,
      \<lparr>initialized = True, auth = Some \<lparr>token = ''dev'', expiresAt = None\<rparr>,
       renew = None, user = Some (JStr ''ann'')\<rparr>) \<and>
   \<not> truthy_opt_string (devToken (noProps\<lparr>doSignIn := Some (\<lambda>ctx input. Resolves sampleResult)\<rparr>)) \<and>
   signInAsync (noProps\<lparr>doSignIn := Some (\<lambda>ctx input. Resolves sampleResult)\<rparr>)
       5000 signedOut None signedOut =
     (Fulfilled sampleResult, processResult 5000 sampleResult signedOut) \<and>
   fst (signInAsync noProps 5000 signedOut None signedOut) = Rejected NoSignInHandler"
proof -
  let ?dev = "noProps\<lparr>devToken := Some ''dev'', devUser := Some (JStr ''ann'')\<rparr>"
  let ?cb = "noProps\<lparr>doSignIn := Some (\<lambda>ctx input. Resolves sampleResult)\<rparr>"
  have d: "truthy_opt_string (devToken ?dev)"
    by (simp add: truthy_string_def)
  have n: "\<not> truthy_opt_string (devToken ?cb)" "\<not> truthy_opt_string (devToken noProps)"
    by (simp_all add: noProps_def)
  have h: "doSignIn ?cb = Some (\<lambda>ctx input. Resolves sampleResult)" "doSignIn noProps = None"
    by (simp_all add: noProps_def)
  from signInAsync_dev_bypass [of ?dev 5000 signedOut None signedOut] d
  obtain t where t: "devToken ?dev = Some t"
    "signInAsync ?dev 5000 signedOut None signedOut =
       (Fulfilled \<lparr>res_token = t, tokenExpiration = None, res_renew = None,
                   renewExpiration = None, res_user = devUser ?dev\<rparr>,
        processResult 5000 \<lparr>res_token = t, tokenExpiration = None, res_renew = None,
                   renewExpiration = None, res_user = devUser ?dev\<rparr> signedOut)"
    by blast
  from t(1) have t': "t = ''dev''"
    by simp
  have one: "signInAsync ?dev 5000 signedOut None signedOut =
     (Fulfilled \<lparr>res_token = ''dev'', tokenExpiration = None, res_renew = None,
                 renewExpiration = None, res_user = Some (JStr ''ann'')\<rparr>,
      \<lparr>initialized = True, auth = Some \<lparr>token = ''dev'', expiresAt = None\<rparr>,
       renew = None, user = Some (JStr ''ann'')\<rparr>)"
    unfolding t(2) t' by (simp add: processResult_def signedOut_def)
  from signInAsync_dev_bypass [of ?cb 5000 signedOut None signedOut] n(1) h(1)
  have two: "signInAsync ?cb 5000 signedOut None signedOut =
     (Fulfilled sampleResult, processResult 5000 sampleResult signedOut)"
    by simp
  from signInAsync_dev_bypass [of noProps 5000 signedOut None signedOut] n(2) h(2)
  have three: "fst (signInAsync noProps 5000 signedOut None signedOut) = Rejected NoSignInHandler"
    by blast
  from d one n(1) two three show ?thesis
    by blast
qed

text \<open>
  Claim C4, as stated, fails on \<open>user = result.user ?? previous user\<close>: the source tests
  \<open>res.user\<close> for truthiness, so a result whose user is \<open>0\<close> (or \<open>''\<close>, or \<open>false\<close>) keeps
  the previous user, where \<open>??\<close> would take the new one.
\<close>

theorem processResult_falsy_user_counterexample:
  "user (setAuth 5000 (sampleResult\<lparr>res_user := Some (JNum 0)\<rparr>) signedIn) = Some (JNum 7) \<and>
   nullish (res_user (sampleResult\<lparr>res_user := Some (JNum 0)\<rparr>)) (user signedIn) = Some (JNum 0) \<and>
   user (setAuth 5000 (sampleResult\<lparr>res_user := Some (JNum 0)\<rparr>) signedIn)
     \<noteq> nullish (res_user (sampleResult\<lparr>res_user := Some (JNum 0)\<rparr>)) (user signedIn)"
  by (simp add: setAuth_def processResult_def sampleResult_def signedIn_def)

text \<open>
  Claim C4, amended. The state committed for a result has the auth bundle built from the
  result's token and coerced expiration; the renew bundle built from \<open>result.renew\<close> when
  that is a non-empty string, and the latest renew bundle otherwise; the result's user when
  it is truthy, and the latest user otherwise (which is \<open>result.user ?? user\<close> unless the
  result's user is falsy without being \<open>null\<close> or \<open>undefined\<close>); and \<open>initialized\<close> true.
  The merge reads the latest state \<open>store\<close>, never the state of the calling render:
  a resolved \<open>doSignIn\<close> or \<open>doRenew\<close> commits exactly this, and \<open>setAuth\<close> is the same
  routine with no callback.
\<close>

theorem processResult_commit:
  "auth (processResult now res store) =
     Some \<lparr>token = res_token res, expiresAt = coerceExpiration now (tokenExpiration res)\<rparr> \<and>
   (\<forall>r. res_renew res = Some r \<and> r \<noteq> [] \<longrightarrow>
      renew (processResult now res store) =
        Some \<lparr>token = r, expiresAt = coerceExpiration now (renewExpiration res)\<rparr>) \<and>
   (res_renew res = None \<or> res_renew res = Some [] \<longrightarrow>
      renew (processResult now res store) = renew store) \<and>
   (truthy_opt (res_user res) \<longrightarrow> user (processResult now res store) = res_user res) \<and>
   (\<not> truthy_opt (res_user res) \<longrightarrow> user (processResult now res store) = user store) \<and>
   (truthy_opt (res_user res) \<or> res_user res = None \<or> res_user res = Some JNull \<longrightarrow>
      user (processResult now res store) = nullish (res_user res) (user store)) \<and>
   initialized (processResult now res store) \<and>
   setAuth now res store = processResult now res store \<and>
   (\<forall>cfg state input f.
      \<not> truthy_opt_string (devToken cfg) \<and> doSignIn cfg = Some f \<and> f state input = Resolves res \<longrightarrow>
      signInAsync cfg now state input store = (Fulfilled res, processResult now res store)) \<and>
   (\<forall>cfg state input f.
      doRenew cfg = Some f \<and> f state input = Resolves res \<longrightarrow>
      renewTokenAsync cfg now state input store = (Fulfilled res, processResult now res store))"
proof (intro conjI allI impI)
  show "auth (processResult now res store) =
     Some \<lparr>token = res_token res, expiresAt = coerceExpiration now (tokenExpiration res)\<rparr>"
    by (rule auth_processResult)
next
  fix r assume "res_renew res = Some r \<and> r \<noteq> []"
  then show "renew (processResult now res store) =
        Some \<lparr>token = r, expiresAt = coerceExpiration now (renewExpiration res)\<rparr>"
    by (simp add: renew_processResult truthy_string_def)
next
  assume "res_renew res = None \<or> res_renew res = Some []"
  then show "renew (processResult now res store) = renew store"
    by (auto simp: renew_processResult truthy_string_def)
next
  assume "truthy_opt (res_user res)"
  then show "user (processResult now res store) = res_user res"
    by (simp add: user_processResult)
next
  assume "\<not> truthy_opt (res_user res)"
  then show "user (processResult now res store) = user store"
    by (simp add: user_processResult)
next
  assume "truthy_opt (res_user res) \<or> res_user res = None \<or> res_user res = Some JNull"
  then show "user (processResult now res store) = nullish (res_user res) (user store)"
    by (auto simp: user_processResult nullish_truthy)
next
  show "initialized (processResult now res store)"
    by (rule initialized_processResult)
next
  show "setAuth now res store = processResult now res store"
    by (simp add: setAuth_def)
next
  fix cfg :: "('a, 'b, 'c) AuthProviderProps" and state input f
  assume "\<not> truthy_opt_string (devToken cfg) \<and> doSignIn cfg = Some f \<and> f state input = Resolves res"
  then show "signInAsync cfg now state input store = (Fulfilled res, processResult now res store)"
    by (simp add: signInAsync_callback)
next
  fix cfg :: "('d, 'e, 'f) AuthProviderProps" and state input f
  assume "doRenew cfg = Some f \<and> f state input = Resolves res"
  then show "renewTokenAsync cfg now state input store = (Fulfilled res, processResult now res store)"
    by (simp add: renewTokenAsync_def)
qed

theorem processResult_commit_witness:
  "res_renew (sampleResult\<lparr>res_renew := Some ''r2'', res_user := Some (JStr ''bob'')\<rparr>) = Some ''r2'' \<and>
   ''r2'' \<noteq> [] \<and>
   truthy_opt (res_user (sampleResult\<lparr>res_renew := Some ''r2'', res_user := Some (JStr ''bob'')\<rparr>)) \<and>
   renew (processResult 5000 (sampleResult\<lparr>res_renew := Some ''r2'', res_user := Some (JStr ''bob'')\<rparr>) signedIn)
     = Some \<lparr>token = ''r2'', expiresAt = None\<rparr> \<and>
   user (processResult 5000 (sampleResult\<lparr>res_renew := Some ''r2'', res_user := Some (JStr ''bob'')\<rparr>) signedIn)
     = Some (JStr ''bob'') \<and>
   res_renew sampleResult = None \<and> \<not> truthy_opt (res_user sampleResult) \<and>
   renew (processResult 5000 sampleResult signedIn) = renew signedIn \<and>
   user (processResult 5000 sampleResult signedIn) = user signedIn \<and>
   doRenew (noProps\<lparr>doRenew := Some (\<lambda>ctx input. Resolves sampleResult)\<rparr>)
     = Some (\<lambda>ctx input. Resolves sampleResult) \<and>
   renewTokenAsync (noProps\<lparr>doRenew := Some (\<lambda>ctx input. Resolves sampleResult)\<rparr>)
       5000 signedOut None signedIn
     = (Fulfilled sampleResult,
        \<lparr>initialized = True, auth = Some \<lparr>token = ''xyz'', expiresAt = Some 905000\<rparr>,
         renew = Some \<lparr>token = ''r1'', expiresAt = None\<rparr>, user = Some (JNum 7)\<rparr>)"
proof -
  let ?res = "sampleResult\<lparr>res_renew := Some ''r2'', res_user := Some (JStr ''bob'')\<rparr>"
  let ?cfg = "noProps\<lparr>doRenew := Some (\<lambda>ctx input. Resolves sampleResult)\<rparr>"
  have a: "res_renew ?res = Some ''r2''" "''r2'' \<noteq> []" "truthy_opt (res_user ?res)"
    "renewExpiration ?res = None"  "res_user ?res = Some (JStr ''bob'')"
    by (simp_all add: sampleResult_def)
  have b: "res_renew sampleResult = None" "\<not> truthy_opt (res_user sampleResult)"
    by (simp_all add: sampleResult_def)
  have c: "doRenew ?cfg = Some (\<lambda>ctx input. Resolves sampleResult)"
    by simp
  note full = processResult_commit [of 5000 ?res signedIn]
  note keep = processResult_commit [of 5000 sampleResult signedIn]
  from full [THEN conjunct2, THEN conjunct1] a(1,2)
  have "renew (processResult 5000 ?res signedIn) =
      Some \<lparr>token = ''r2'', expiresAt = coerceExpiration 5000 (renewExpiration ?res)\<rparr>"
    by blast
  then have r1: "renew (processResult 5000 ?res signedIn) = Some \<lparr>token = ''r2'', expiresAt = None\<rparr>"
    by (simp only: a(4) coerceExpiration.simps)
  from full [THEN conjunct2, THEN conjunct2, THEN conjunct2, THEN conjunct1] a(3)
  have "user (processResult 5000 ?res signedIn) = res_user ?res"
    by blast
  then have u1: "user (processResult 5000 ?res signedIn) = Some (JStr ''bob'')"
    by (simp only: a(5))
  from keep [THEN conjunct2, THEN conjunct2, THEN conjunct1] b(1)
  have r2: "renew (processResult 5000 sampleResult signedIn) = renew signedIn"
    by blast
  from keep [THEN conjunct2, THEN conjunct2, THEN conjunct2, THEN conjunct2, THEN conjunct1] b(2)
  have u2: "user (processResult 5000 sampleResult signedIn) = user signedIn"
    by blast
  from keep [THEN conjunct1]
  have au: "auth (processResult 5000 sampleResult signedIn) =
      Some \<lparr>token = ''xyz'', expiresAt = Some 905000\<rparr>"
    by (simp add: sampleResult_def)
  from keep have ini: "initialized (processResult 5000 sampleResult signedIn)"
    by (elim conjE)
  have st: "processResult 5000 sampleResult signedIn =
      \<lparr>initialized = True, auth = Some \<lparr>token = ''xyz'', expiresAt = Some 905000\<rparr>,
         renew = Some \<lparr>token = ''r1'', expiresAt = None\<rparr>, user = Some (JNum 7)\<rparr>"
    using au ini r2 u2 by (cases "processResult 5000 sampleResult signedIn") (simp add: signedIn_def)
  from keep c have "renewTokenAsync ?cfg 5000 signedOut None signedIn =
      (Fulfilled sampleResult, processResult 5000 sampleResult signedIn)"
    by blast
  then have d: "renewTokenAsync ?cfg 5000 signedOut None signedIn =
      (Fulfilled sampleResult,
        \<lparr>initialized = True, auth = Some \<lparr>token = ''xyz'', expiresAt = Some 905000\<rparr>,
         renew = Some \<lparr>token = ''r1'', expiresAt = None\<rparr>, user = Some (JNum 7)\<rparr>)"
    by (simp only: st)
  from a(1-3) r1 u1 b r2 u2 c d show ?thesis
    by blast
qed

section \<open>Token-change notification: properties\<close>

lemma renders_append:
  "renders cb mounted deps (xs @ ys) =
     renders cb mounted deps xs @
     renders cb (fst (refsAfter cb mounted deps xs)) (snd (refsAfter cb mounted deps xs)) ys"
  by (induction xs arbitrary: mounted deps) simp_all

lemma refsAfter_deps:
  "xs \<noteq> [] \<Longrightarrow> snd (refsAfter cb mounted deps xs) = Some (tokenOf (last xs))"
  by (induction xs arbitrary: mounted deps) auto

lemma refsAfter_mounted:
  "fst (refsAfter cb mounted deps xs) =
     (mounted \<or> (cb \<and> (\<exists>x \<in> set xs. truthy_opt_string (tokenOf x))))"
  by (induction xs arbitrary: mounted deps) (auto simp: renderNotify_def)

lemma renders_none: "renders False mounted deps xs = []"
  by (induction xs arbitrary: mounted deps) (simp_all add: renderNotify_def effectNotify_def)

text \<open>
  Claim C5, as stated, fails already on load: for a loaded state that is authenticated,
  \<open>onTokenChange\<close> is invoked in the render body and again by the effect after the first
  render, twice with the same token and with no change in between, where the claim counts
  one invocation.
\<close>

theorem notifications_twice_on_load_counterexample:
  "notifications True [signedIn] = [(signedIn, Some ''abc''), (signedIn, Some ''abc'')] \<and>
   claimedNotificationCount [signedIn] = 1 \<and>
   length (notifications True [signedIn]) \<noteq> claimedNotificationCount [signedIn]"
  by (simp add: notifications_def renderNotify_def effectNotify_def tokenOf_def signedIn_def
      truthy_string_def)

text \<open>
  Claim C5, amended. With \<open>onTokenChange\<close> configured: after the first render the effect
  invokes it once with the loaded token (or \<open>undefined\<close>), preceded by one synchronous
  invocation when that token is non-empty; a later render whose resolved token equals the
  previous render's invokes nothing, whatever else changed in the state (the user, for
  one); a later render whose token differs invokes it once through the effect, preceded by
  one synchronous invocation when the token is non-empty and no earlier render had a
  non-empty token. Without \<open>onTokenChange\<close> nothing is invoked.
\<close>

theorem notifications_per_render:
  "notifications True [loaded] =
     (if truthy_opt_string (tokenOf loaded)
      then [(loaded, tokenOf loaded), (loaded, tokenOf loaded)]
      else [(loaded, tokenOf loaded)]) \<and>
   (\<forall>before state. before \<noteq> [] \<and> tokenOf state = tokenOf (last before) \<longrightarrow>
      notifications True (before @ [state]) = notifications True before) \<and>
   (\<forall>before state. before \<noteq> [] \<and> tokenOf state \<noteq> tokenOf (last before) \<longrightarrow>
      notifications True (before @ [state]) =
        notifications True before @
        (if truthy_opt_string (tokenOf state) \<and>
            (\<forall>x \<in> set before. \<not> truthy_opt_string (tokenOf x))
         then [(state, tokenOf state)] else []) @
        [(state, tokenOf state)]) \<and>
   notifications False states = []"
proof (intro conjI allI impI)
  show "notifications True [loaded] =
     (if truthy_opt_string (tokenOf loaded)
      then [(loaded, tokenOf loaded), (loaded, tokenOf loaded)]
      else [(loaded, tokenOf loaded)])"
    by (simp add: notifications_def renderNotify_def effectNotify_def)
next
  fix before state
  assume h: "before \<noteq> [] \<and> tokenOf state = tokenOf (last before)"
  then have deps: "snd (refsAfter True False None before) = Some (tokenOf state)"
    by (simp add: refsAfter_deps)
  have m: "truthy_opt_string (tokenOf state) \<Longrightarrow> fst (refsAfter True False None before)"
    using h by (auto simp: refsAfter_mounted intro: bexI [of _ "last before"])
  have "renders True (fst (refsAfter True False None before))
          (snd (refsAfter True False None before)) [state] = []"
    using m by (auto simp: deps renderNotify_def effectNotify_def)
  then show "notifications True (before @ [state]) = notifications True before"
    by (simp add: notifications_def renders_append)
next
  fix before state
  assume h: "before \<noteq> [] \<and> tokenOf state \<noteq> tokenOf (last before)"
  then have deps: "snd (refsAfter True False None before) = Some (tokenOf (last before))"
    by (simp add: refsAfter_deps)
  have "renders True (fst (refsAfter True False None before))
          (snd (refsAfter True False None before)) [state] =
        (if truthy_opt_string (tokenOf state) \<and>
            (\<forall>x \<in> set before. \<not> truthy_opt_string (tokenOf x))
         then [(state, tokenOf state)] else []) @
        [(state, tokenOf state)]"
    using h by (auto simp: deps refsAfter_mounted renderNotify_def effectNotify_def)
  then show "notifications True (before @ [state]) =
        notifications True before @
        (if truthy_opt_string (tokenOf state) \<and>
            (\<forall>x \<in> set before. \<not> truthy_opt_string (tokenOf x))
         then [(state, tokenOf state)] else []) @
        [(state, tokenOf state)]"
    by (simp add: notifications_def renders_append)
next
  show "notifications False states = []"
    by (simp add: notifications_def renders_none)
qed

theorem notifications_per_render_witness:
  "[signedIn] \<noteq> [] \<and>
   tokenOf (signedIn\<lparr>user := Some (JStr ''bob'')\<rparr>) = tokenOf (last [signedIn]) \<and>
   notifications True ([signedIn] @ [signedIn\<lparr>user := Some (JStr ''bob'')\<rparr>])
     = notifications True [signedIn] \<and>
   tokenOf signedOut \<noteq> tokenOf (last [signedIn]) \<and>
   notifications True ([signedIn] @ [signedOut])
     = [(signedIn, Some ''abc''), (signedIn, Some ''abc''), (signedOut, None)] \<and>
   tokenOf signedIn \<noteq> tokenOf (last [signedOut]) \<and>
   \<not> truthy_opt_string (tokenOf signedOut) \<and>
   notifications True ([signedOut] @ [signedIn])
     = [(signedOut, None), (signedIn, Some ''abc''), (signedIn, Some ''abc'')]"
proof -
  have tok: "tokenOf signedIn = Some ''abc''" "tokenOf signedOut = None"
    "tokenOf (signedIn\<lparr>user := Some (JStr ''bob'')\<rparr>) = Some ''abc''"
    by (simp_all add: tokenOf_def signedIn_def signedOut_def)
  have tr: "truthy_opt_string (Some ''abc'')" "\<not> truthy_opt_string None"
    by (simp_all add: truthy_string_def)
  note same = notifications_per_render [THEN conjunct2, THEN conjunct1, rule_format,
      of "[signedIn]" "signedIn\<lparr>user := Some (JStr ''bob'')\<rparr>"]
  note change = notifications_per_render [THEN conjunct2, THEN conjunct2, THEN conjunct1, rule_format]
  note load = notifications_per_render [THEN conjunct1]
  have a: "notifications True ([signedIn] @ [signedIn\<lparr>user := Some (JStr ''bob'')\<rparr>])
     = notifications True [signedIn]"
    by (rule same) (simp add: tok)
  have b: "notifications True ([signedIn] @ [signedOut])
     = [(signedIn, Some ''abc''), (signedIn, Some ''abc''), (signedOut, None)]"
    by (subst change) (simp_all add: tok truthy_string_def load)
  have c: "notifications True ([signedOut] @ [signedIn])
     = [(signedOut, None), (signedIn, Some ''abc''), (signedIn, Some ''abc'')]"
    by (subst change) (simp_all add: tok truthy_string_def load)
  show ?thesis
    using a b c by (simp add: tok truthy_string_def)
qed

section \<open>Reconciliation and lifecycle: properties\<close>

lemma renewTokenAsync_cases:
  "(\<exists>res. renewTokenAsync cfg now state input store = (Fulfilled res, processResult now res store)) \<or>
   (\<exists>e. renewTokenAsync cfg now state input store = (Rejected e, store)) \<or>
   renewTokenAsync cfg now state input store = (Pending, store)"
  by (simp add: renewTokenAsync_def split: option.split outcome.split)

lemma signInAsync_cases:
  "(\<exists>res. signInAsync cfg now state input store = (Fulfilled res, processResult now res store)) \<or>
   (\<exists>e. signInAsync cfg now state input store = (Rejected e, store)) \<or>
   signInAsync cfg now state input store = (Pending, store)"
  by (simp add: signInAsync_def split: option.split outcome.split)

lemma signOutAsync_cases:
  "signOutAsync cfg state input store = (Fulfilled (), processExit store) \<or>
   signOutAsync cfg state input store = (Pending, store)"
  by (simp add: signOutAsync_def split: option.split outcome.split)

lemma initialized_processExit: "initialized (processExit store)"
  by (simp add: processExit_def)

lemma invalidate_cases:
  "invalidate isFirst now state store = store \<or> initialized (invalidate isFirst now state store)"
  by (simp add: invalidate_def)

lemma invalidate_first: "initialized (invalidate True now state store)"
  by (simp add: invalidate_def)

lemma reconcile_cases:
  "reconcile cfg now now' isFirst state store = (how, next, first') \<Longrightarrow>
   next = store \<or> initialized next"
  using renewTokenAsync_cases [of cfg now' state None store]
    invalidate_cases [of isFirst now state store]
  by (auto simp: reconcile_def initialized_processResult split: if_splits)

lemma reconcile_first_pass:
  "reconcile cfg now now' True state store = (how, next, first') \<Longrightarrow> how \<noteq> Suspended \<Longrightarrow>
   initialized next"
  using renewTokenAsync_cases [of cfg now' state None store]
  by (auto simp: reconcile_def initialized_processResult invalidate_first split: if_splits)

lemma authExpired_cases:
  "auth state \<noteq> None \<Longrightarrow> initialized state \<Longrightarrow>
   authExpired cfg now state store = store \<or> initialized (authExpired cfg now state store)"
  using renewTokenAsync_cases [of cfg now state None store]
  by (auto simp: authExpired_def initialized_processResult)

lemma commit_keeps:
  "wellRendered p \<Longrightarrow> next = current p \<or> initialized next \<Longrightarrow>
   (current (commit next p) = current p \<or> initialized (current (commit next p))) \<and>
   wellRendered (commit next p)"
  by (auto simp: wellRendered_def commit_def)

lemma isFirst_current_keeps:
  "(current q = current p \<or> initialized (current q)) \<and> wellRendered q \<Longrightarrow>
   (current (q\<lparr>isFirst_current := f\<rparr>) = current p \<or>
    initialized (current (q\<lparr>isFirst_current := f\<rparr>))) \<and>
   wellRendered (q\<lparr>isFirst_current := f\<rparr>)"
  by (simp add: wellRendered_def)

lemma step_keeps:
  assumes "step cfg p q" and "wellRendered p"
  shows "(current q = current p \<or> initialized (current q)) \<and> wellRendered q"
  using assms(1)
proof cases
  case (SignIn state now input)
  have "snd (signInAsync cfg now state input (current p)) = current p \<or>
        initialized (snd (signInAsync cfg now state input (current p)))"
    using signInAsync_cases [of cfg now state input "current p"]
    by (auto simp: initialized_processResult)
  then show ?thesis
    unfolding SignIn(1) by (rule commit_keeps [OF assms(2)])
next
  case (RenewToken state now input)
  have "snd (renewTokenAsync cfg now state input (current p)) = current p \<or>
        initialized (snd (renewTokenAsync cfg now state input (current p)))"
    using renewTokenAsync_cases [of cfg now state input "current p"]
    by (auto simp: initialized_processResult)
  then show ?thesis
    unfolding RenewToken(1) by (rule commit_keeps [OF assms(2)])
next
  case (SignOut state input)
  have "snd (signOutAsync cfg state input (current p)) = current p \<or>
        initialized (snd (signOutAsync cfg state input (current p)))"
    using signOutAsync_cases [of cfg state input "current p"]
    by (auto simp: initialized_processExit)
  then show ?thesis
    unfolding SignOut(1) by (rule commit_keeps [OF assms(2)])
next
  case (SetAuth now res)
  have "setAuth now res (current p) = current p \<or> initialized (setAuth now res (current p))"
    by (simp add: setAuth_def initialized_processResult)
  then show ?thesis
    unfolding SetAuth(1) by (rule commit_keeps [OF assms(2)])
next
  case (Reconcile state now now' how "next" first')
  have "next = current p \<or> initialized next"
    using Reconcile(3) by (rule reconcile_cases)
  then have "(current (commit next p) = current p \<or> initialized (current (commit next p))) \<and>
      wellRendered (commit next p)"
    by (rule commit_keeps [OF assms(2)])
  then show ?thesis
    unfolding Reconcile(1) by (rule isFirst_current_keeps)
next
  case (AuthTimer state b e now)
  with assms(2) have "initialized state"
    by (auto simp: wellRendered_def)
  with AuthTimer(3)
  have "authExpired cfg now state (current p) = current p \<or>
        initialized (authExpired cfg now state (current p))"
    using authExpired_cases [of state cfg now "current p"] by simp
  then show ?thesis
    unfolding AuthTimer(1) by (rule commit_keeps [OF assms(2)])
next
  case (RenewTimer state b e)
  with assms(2) have "initialized state"
    by (auto simp: wellRendered_def)
  then have "renewExpired state (current p) = current p \<or>
        initialized (renewExpired state (current p))"
    by (simp add: renewExpired_def)
  then show ?thesis
    unfolding RenewTimer(1) by (rule commit_keeps [OF assms(2)])
next
  case Remount
  then show ?thesis
    using assms(2) by (auto simp: mount_def wellRendered_def)
qed

lemma coherent_initialState: "coherent (initialState cfg)"
  by (simp add: coherent_def initialState_def)

lemma wellRendered_mount: "coherent loaded \<Longrightarrow> wellRendered (mount loaded)"
  by (auto simp: wellRendered_def mount_def coherent_def)

lemma wellRendered_current: "wellRendered p \<Longrightarrow> coherent (current p)"
  by (auto simp: wellRendered_def coherent_def)

lemma steps_keep:
  "(step cfg)\<^sup>*\<^sup>* p q \<Longrightarrow> wellRendered p \<Longrightarrow>
   wellRendered q \<and> (initialized (current p) \<longrightarrow> initialized (current q))"
proof (induction rule: rtranclp_induct)
  case base
  then show ?case by simp
next
  case (step y z)
  then show ?case
    using step_keeps [of cfg y z] by auto
qed

lemma reachable_wellRendered:
  assumes "reachable cfg persisted p" and "\<forall>loaded. persisted = Some loaded \<longrightarrow> coherent loaded"
  shows "wellRendered p"
proof -
  from assms(1) have steps: "(step cfg)\<^sup>*\<^sup>* (mount (loadState cfg persisted)) p"
    by (simp add: reachable_def)
  have "coherent (loadState cfg persisted)"
    using assms(2) by (cases persisted) (simp_all add: loadState_def coherent_initialState)
  then have "wellRendered (mount (loadState cfg persisted))"
    by (rule wellRendered_mount)
  from steps_keep [OF steps this] show ?thesis
    by (rule conjunct1)
qed

lemma renewWanted_iff:
  "renewWanted cfg isFirst now state \<longleftrightarrow>
     (isFirst \<and> renewOnMount cfg) \<or> auth state = None \<or>
     (\<exists>b. auth state = Some b \<and> \<not> isTokenBundleValid now b)"
  by (cases "auth state") (simp_all add: renewWanted_def authInv_def)

lemma reconcile_not_wanted:
  "\<not> renewWanted cfg isFirst now state \<Longrightarrow>
   reconcile cfg now now' isFirst state store =
     (FellThrough, invalidate isFirst now state store, False)"
  by (simp add: reconcile_def)

lemma reconcile_renewed:
  "renewWanted cfg isFirst now state \<Longrightarrow>
   renewTokenAsync cfg now' state None store = (Fulfilled res, store') \<Longrightarrow>
   reconcile cfg now now' isFirst state store = (Renewed, store', isFirst)"
  by (simp add: reconcile_def)

lemma reconcile_rejected:
  "renewWanted cfg isFirst now state \<Longrightarrow>
   renewTokenAsync cfg now' state None store = (Rejected e, store') \<Longrightarrow>
   reconcile cfg now now' isFirst state store =
     (FellThrough, invalidate isFirst now state store, False)"
  using renewTokenAsync_cases [of cfg now' state None store]
  by (auto simp: reconcile_def)

text \<open>
  With \<open>renewOnMount\<close> and a \<open>doRenew\<close> that resolves, a pass that starts with
  \<open>isFirst.current\<close> set renews and leaves it set: the \<open>return\<close> comes before
  \<open>isFirst.current = false\<close>. So does the pass after it, and so on.
\<close>

lemma reconcile_renewOnMount_repeats:
  "renewOnMount cfg \<Longrightarrow> doRenew cfg = Some f \<Longrightarrow> f state None = Resolves res \<Longrightarrow>
   reconcile cfg now now' True state store = (Renewed, processResult now' res store, True)"
  by (simp add: reconcile_def renewWanted_def renewTokenAsync_def)

text \<open>
  Claim C3. The claim has the pass attempt a renewal exactly when it is the very first pass
  and \<open>renewOnMount\<close> is configured, or the auth bundle is absent or invalid. The source at
  \<open>renewOnMount = true\<close> with a \<open>doRenew\<close> that resolves, mounted on empty storage: the
  first pass renews and returns with \<open>isFirst.current\<close> still true; the pass that the
  state change triggers is not the first, its auth bundle is present and valid, and it is
  wanted again, and renews again.
\<close>

theorem reconcile_renews_on_second_pass:
  "reconcile renewingProps 1000 1000 True (initialState renewingProps) (initialState renewingProps)
     = (Renewed,
        \<lparr>initialized = True, auth = Some \<lparr>token = ''xyz'', expiresAt = Some 901000\<rparr>,
         renew = None, user = None\<rparr>,
        True) \<and>
   isTokenBundleValid 2000 \<lparr>token = ''xyz'', expiresAt = Some 901000\<rparr> \<and>
   renewWanted renewingProps True 2000
        \<lparr>initialized = True, auth = Some \<lparr>token = ''xyz'', expiresAt = Some 901000\<rparr>,
         renew = None, user = None\<rparr> \<and>
   reconcile renewingProps 2000 2000 True
        \<lparr>initialized = True, auth = Some \<lparr>token = ''xyz'', expiresAt = Some 901000\<rparr>,
         renew = None, user = None\<rparr>
        \<lparr>initialized = True, auth = Some \<lparr>token = ''xyz'', expiresAt = Some 901000\<rparr>,
         renew = None, user = None\<rparr>
     = (Renewed,
        \<lparr>initialized = True, auth = Some \<lparr>token = ''xyz'', expiresAt = Some 902000\<rparr>,
         renew = None, user = None\<rparr>,
        True)"
  by (simp add: reconcile_def renewWanted_def renewTokenAsync_def renewingProps_def noProps_def
      initialState_def processResult_def sampleResult_def isTokenBundleValid_def
      truthy_string_def authInv_def)

text \<open>
  Claim C8, as stated, fails in two ways. The flag can be true before any pass has run: a
  provider configured with \<open>devSignedIn\<close> and a development token starts with it true.
  And it can go back to false: mounted on a persisted state that holds an expired auth
  bundle and is not initialized, the first pass commits \<open>initialized: true\<close>, and the auth
  timer's task, whose renewal fails, then writes back the state of the first render with
  \<open>auth\<close> removed, which is not initialized.
\<close>

theorem initialized_early_or_reverted_counterexample:
  "reachable devSignedInProps None (mount (loadState devSignedInProps None)) \<and>
   initialized (current (mount (loadState devSignedInProps None))) \<and>
   isFirst_current (mount (loadState devSignedInProps None)) \<and>
   reachable noProps (Some staleLoaded) staleAfterPass \<and>
   initialized (current staleAfterPass) \<and>
   step noProps staleAfterPass staleAfterTimer \<and>
   reachable noProps (Some staleLoaded) staleAfterTimer \<and>
   \<not> initialized (current staleAfterTimer)"
proof -
  have dev: "initialized (current (mount (loadState devSignedInProps None)))"
    "isFirst_current (mount (loadState devSignedInProps None))"
    by (simp_all add: mount_def loadState_def initialState_def devSignedInProps_def
        noProps_def truthy_string_def)
  have r: "reachable devSignedInProps None (mount (loadState devSignedInProps None))"
    by (simp add: reachable_def)
  have props: "doRenew noProps = None" "renewOnMount noProps = False"
    by (simp_all add: noProps_def)
  have cur0: "current staleProvider = staleLoaded" "rendered staleProvider = [staleLoaded]"
    "isFirst_current staleProvider"
    by (simp_all add: staleProvider_def mount_def loadState_def)
  have pass: "reconcile noProps 2000 2000 (isFirst_current staleProvider) staleLoaded
       (current staleProvider) = (FellThrough, signedOut, False)"
    by (simp add: cur0 props reconcile_def renewWanted_def renewTokenAsync_def invalidate_def
        authInv_def renewInv_def isTokenBundleValid_def truthy_string_def
        staleLoaded_def signedOut_def)
  have "staleLoaded \<in> set (rendered staleProvider)"
    by (simp add: cur0)
  then have s1: "step noProps staleProvider staleAfterPass"
    unfolding staleAfterPass_def using pass by (rule step.Reconcile)
  have r0: "reachable noProps (Some staleLoaded) staleProvider"
    by (simp add: reachable_def staleProvider_def)
  with s1 have r1: "reachable noProps (Some staleLoaded) staleAfterPass"
    by (simp add: reachable_def)
  have cur1: "current staleAfterPass = signedOut"
    "staleLoaded \<in> set (rendered staleAfterPass)"
    by (simp_all add: staleAfterPass_def commit_def cur0)
  have i1: "initialized (current staleAfterPass)"
    by (simp add: cur1 signedOut_def)
  have task: "authExpired noProps 2000 staleLoaded (current staleAfterPass)
      = staleLoaded\<lparr>auth := None\<rparr>"
    by (simp add: authExpired_def renewTokenAsync_def props)
  have "step noProps staleAfterPass
      (commit (authExpired noProps 2000 staleLoaded (current staleAfterPass)) staleAfterPass)"
    using cur1(2)
    by (rule step.AuthTimer [where b = "\<lparr>token = ''abc'', expiresAt = Some 1000\<rparr>" and e = 1000])
      (simp_all add: staleLoaded_def)
  then have s2: "step noProps staleAfterPass staleAfterTimer"
    by (simp add: task staleAfterTimer_def)
  with r1 have r2: "reachable noProps (Some staleLoaded) staleAfterTimer"
    by (simp add: reachable_def)
  have i2: "\<not> initialized (current staleAfterTimer)"
    by (simp add: staleAfterTimer_def commit_def staleLoaded_def)
  from r dev r1 i1 s2 r2 i2 show ?thesis
    by simp
qed

text \<open>
  Claim C8, amended. Mounted on empty storage, or on a persisted state that is initialized
  if it holds a bundle: in every provider reachable by actions, passes, timers and reloads,
  once \<open>initialized\<close> is true it is true after any further events; a pass that starts
  with \<open>isFirst.current\<close> set leaves it true when it completes (that is, unless its
  renewal never settles); and the latest state is again initialized if it holds a bundle,
  as is the default state, so what the provider persists can be loaded under the same
  condition.
\<close>

theorem initialized_never_reverts:
  "reachable cfg persisted p \<Longrightarrow> (\<forall>loaded. persisted = Some loaded \<longrightarrow> coherent loaded) \<Longrightarrow>
     (\<forall>q. initialized (current p) \<and> (step cfg)\<^sup>*\<^sup>* p q \<longrightarrow> initialized (current q)) \<and>
     (\<forall>now now' state how next first'.
        isFirst_current p \<and>
        reconcile cfg now now' (isFirst_current p) state (current p) = (how, next, first') \<and>
        how \<noteq> Suspended \<longrightarrow> initialized next) \<and>
     coherent (current p) \<and>
     coherent (initialState cfg)"
proof (intro conjI allI impI)
  fix q
  assume r: "reachable cfg persisted p"
    and l: "\<forall>loaded. persisted = Some loaded \<longrightarrow> coherent loaded"
    and h: "initialized (current p) \<and> (step cfg)\<^sup>*\<^sup>* p q"
  from r l have "wellRendered p"
    by (rule reachable_wellRendered)
  with h show "initialized (current q)"
    using steps_keep [of cfg p q] by simp
next
  fix now now' state how "next" first'
  assume "isFirst_current p \<and>
        reconcile cfg now now' (isFirst_current p) state (current p) = (how, next, first') \<and>
        how \<noteq> Suspended"
  then have "reconcile cfg now now' True state (current p) = (how, next, first')"
    and "how \<noteq> Suspended"
    by auto
  then show "initialized next"
    by (rule reconcile_first_pass)
next
  assume r: "reachable cfg persisted p"
    and l: "\<forall>loaded. persisted = Some loaded \<longrightarrow> coherent loaded"
  from r l have "wellRendered p"
    by (rule reachable_wellRendered)
  then show "coherent (current p)"
    by (rule wellRendered_current)
next
  show "coherent (initialState cfg)"
    by (rule coherent_initialState)
qed

theorem initialized_never_reverts_witness:
  "reachable noProps None freshProvider \<and>
   \<not> initialized (current freshProvider) \<and>
   isFirst_current freshProvider \<and>
   reconcile noProps 1000 1000 (isFirst_current freshProvider) (current freshProvider)
       (current freshProvider) = (FellThrough, signedOut, False) \<and>
   FellThrough \<noteq> Suspended \<and>
   initialized signedOut \<and>
   reachable noProps None afterFirstPass \<and>
   initialized (current afterFirstPass) \<and>
   (step noProps)\<^sup>*\<^sup>* afterFirstPass (commit (setAuth 2000 sampleResult signedOut) afterFirstPass) \<and>
   initialized (current (commit (setAuth 2000 sampleResult signedOut) afterFirstPass)) \<and>
   coherent (staleLoaded\<lparr>initialized := True\<rparr>) \<and>
   reachable noProps (Some (staleLoaded\<lparr>initialized := True\<rparr>))
     (mount (staleLoaded\<lparr>initialized := True\<rparr>)) \<and>
   (step noProps)\<^sup>*\<^sup>* (mount (staleLoaded\<lparr>initialized := True\<rparr>))
     (commit signedOut (mount (staleLoaded\<lparr>initialized := True\<rparr>))) \<and>
   initialized (current (commit signedOut (mount (staleLoaded\<lparr>initialized := True\<rparr>))))"
proof -
  have none: "\<forall>loaded. (None :: AuthState option) = Some loaded \<longrightarrow> coherent loaded"
    by simp
  have init: "initialState noProps = \<lparr>initialized = False, auth = None, renew = None, user = None\<rparr>"
    by (simp add: initialState_def noProps_def)
  have cur0: "current freshProvider = initialState noProps"
    "rendered freshProvider = [initialState noProps]" "isFirst_current freshProvider"
    by (simp_all add: freshProvider_def mount_def loadState_def)
  have props: "doRenew noProps = None" "renewOnMount noProps = False"
    by (simp_all add: noProps_def)
  have pass: "reconcile noProps 1000 1000 (isFirst_current freshProvider) (current freshProvider)
       (current freshProvider) = (FellThrough, signedOut, False)"
    by (simp add: cur0 init props reconcile_def renewWanted_def renewTokenAsync_def invalidate_def
        authInv_def renewInv_def signedOut_def)
  have r0: "reachable noProps None freshProvider"
    by (simp add: reachable_def freshProvider_def)
  have "current freshProvider \<in> set (rendered freshProvider)"
    by (simp add: cur0)
  then have s1: "step noProps freshProvider afterFirstPass"
    unfolding afterFirstPass_def using pass by (rule step.Reconcile)
  with r0 have r1: "reachable noProps None afterFirstPass"
    by (simp add: reachable_def)
  have cur1: "current afterFirstPass = signedOut"
    by (simp add: afterFirstPass_def commit_def)
  have "step noProps afterFirstPass (commit (setAuth 2000 sampleResult (current afterFirstPass)) afterFirstPass)"
    by (rule step.SetAuth)
  then have s2: "(step noProps)\<^sup>*\<^sup>* afterFirstPass
      (commit (setAuth 2000 sampleResult signedOut) afterFirstPass)"
    by (simp add: cur1)
  have i1: "initialized (current afterFirstPass)"
    by (simp add: cur1 signedOut_def)
  from initialized_never_reverts [OF r0 none] cur0(3) pass
  have a: "initialized signedOut"
    by blast
  from initialized_never_reverts [OF r1 none] i1 s2
  have b: "initialized (current (commit (setAuth 2000 sampleResult signedOut) afterFirstPass))"
    by blast
  have n: "\<not> initialized (current freshProvider)"
    by (simp add: cur0 init)
  let ?live = "staleLoaded\<lparr>initialized := True\<rparr>"
  have co: "coherent ?live"
    by (simp add: coherent_def)
  then have some: "\<forall>loaded. Some ?live = Some loaded \<longrightarrow> coherent loaded"
    by simp
  have r3: "reachable noProps (Some ?live) (mount ?live)"
    by (simp add: reachable_def loadState_def)
  have cur3: "current (mount ?live) = ?live" "?live \<in> set (rendered (mount ?live))"
    by (simp_all add: mount_def)
  have task: "authExpired noProps 2000 ?live (current (mount ?live)) = signedOut"
    by (simp add: authExpired_def renewTokenAsync_def props staleLoaded_def signedOut_def)
  have "step noProps (mount ?live)
      (commit (authExpired noProps 2000 ?live (current (mount ?live))) (mount ?live))"
    using cur3(2)
    by (rule step.AuthTimer [where b = "\<lparr>token = ''abc'', expiresAt = Some 1000\<rparr>" and e = 1000])
      (simp_all add: staleLoaded_def)
  then have s3: "(step noProps)\<^sup>*\<^sup>* (mount ?live) (commit signedOut (mount ?live))"
    by (simp add: task)
  have i3: "initialized (current (mount ?live))"
    by (simp add: cur3)
  from initialized_never_reverts [OF r3 some] i3 s3
  have c: "initialized (current (commit signedOut (mount ?live)))"
    by blast
  from r0 n cur0(3) pass a r1 i1 s2 b co r3 s3 c show ?thesis
    by simp
qed

section \<open>Single flight: properties\<close>



lemma run_other_key:
  "other \<noteq> key \<Longrightarrow>
   inflight (snd (run key fn ex)) other = inflight ex other \<and>
   invoked (snd (run key fn ex)) other = invoked ex other"
  by (simp add: run_def split: option.split)


lemma run_after_settle:
  "fst (run key fn (settle key ex)) = (handles ex, fn ()) \<and>
   invoked (snd (run key fn (settle key ex))) key = Suc (invoked ex key)"
  by (simp add: run_def settle_def)




end
